theory Spec2Isabelle
  imports Main "HOL-Library.Word"
begin

section \<open>The emitter's enumerations\<close>

text \<open>
  The enumerators of \<open>EMITTER_MANIP\<close> that \<open>emitterstate.cpp\<close> names. The enumeration
  itself is declared in \<open>yaml-cpp/emittermanip.h\<close>; every enumerator that this file never
  names is an \<open>OtherManip\<close>.
\<close>

datatype EMITTER_MANIP =
    Auto | EmitNonAscii | EscapeNonAscii
  | SingleQuoted | DoubleQuoted | Literal
  | YesNoBool | TrueFalseBool | OnOffBool
  | UpperCase | LowerCase | CamelCase
  | LongBool | ShortBool
  | Dec | Hex | Oct
  | Flow | Block
  | LongKey
  | OtherManip nat

datatype FmtScope = FmtScope_Local | FmtScope_Global

datatype GroupType = GroupType_None | GroupType_Seq | GroupType_Map

datatype FlowType = FlowType_None | FlowType_Flow | FlowType_Block

section \<open>Settings and their change logs\<close>

text \<open>
  \<open>EmitterState\<close> owns one \<open>Setting<T>\<close> per formatting concept. A \<open>SettingChange\<close> keeps a
  pointer to the setting it was taken from, so the settings are modelled as three stores,
  one per instance of the template, addressed by the member's name:
  \<open>Setting<EMITTER_MANIP>\<close>, \<open>Setting<unsigned>\<close> and \<open>Setting<int>\<close>. An \<open>unsigned\<close> and an
  \<open>int\<close> are 32-bit words; an \<open>int\<close> is read with \<open>sint\<close>.
\<close>

datatype manip_setting =
    m_charset | m_strFmt | m_boolFmt | m_boolLengthFmt | m_boolCaseFmt | m_intFmt
  | m_seqFmt | m_mapFmt | m_mapKeyFmt

datatype unsigned_setting = m_indent | m_preCommentIndent | m_postCommentIndent

datatype int_setting = m_floatPrecision | m_doublePrecision

text \<open>
  Modelled from the spec: \<open>SettingChange<T>\<close> and \<open>SettingChanges\<close> of \<open>setting.h\<close>, which is
  not among the sources. A change names the option it belongs to and holds the value that
  undoing it reinstates (section 4.2: the undo record of an option).
\<close>

datatype SettingChange =
    ManipChange manip_setting EMITTER_MANIP
  | UnsignedChange unsigned_setting "32 word"
  | IntChange int_setting "32 word"

type_synonym SettingChanges = "SettingChange list"

text \<open>
  The \<open>Group\<close> structure is declared in \<open>emitterstate.h\<close>; its members are the ones that
  \<open>emitterstate.cpp\<close> reads and writes. \<open>indent\<close> is a C \<open>int\<close>, \<open>childCount\<close> a
  \<open>std::size_t\<close> (64 bits).
\<close>

record Group =
  type :: GroupType
  flow :: EMITTER_MANIP
  indent :: "32 word"
  childCount :: "64 word"
  modifiedSettings :: SettingChanges

record EmitterState =
  m_isGood :: bool
  m_lastError :: string
  manipSettings :: "manip_setting \<Rightarrow> EMITTER_MANIP"
  unsignedSettings :: "unsigned_setting \<Rightarrow> 32 word"
  intSettings :: "int_setting \<Rightarrow> 32 word"
  m_modifiedSettings :: SettingChanges
  m_globalModifiedSettings :: SettingChanges
  m_groups :: "Group list"
  m_curIndent :: "32 word"
  m_hasAnchor :: bool
  m_hasTag :: bool

text \<open>A concept and its value, whatever the instance of \<open>Setting<T>\<close> that holds it.\<close>

datatype setting =
    ManipSetting manip_setting
  | UnsignedSetting unsigned_setting
  | IntSetting int_setting

datatype setting_value =
    ManipValue EMITTER_MANIP
  | UnsignedValue "32 word"
  | IntValue "32 word"

fun current :: "setting \<Rightarrow> EmitterState \<Rightarrow> setting_value" where
  "current (ManipSetting x) s = ManipValue (manipSettings s x)"
| "current (UnsignedSetting x) s = UnsignedValue (unsignedSettings s x)"
| "current (IntSetting x) s = IntValue (intSettings s x)"

fun target :: "SettingChange \<Rightarrow> setting" where
  "target (ManipChange x old) = ManipSetting x"
| "target (UnsignedChange x old) = UnsignedSetting x"
| "target (IntChange x old) = IntSetting x"

fun saved :: "SettingChange \<Rightarrow> setting_value" where
  "saved (ManipChange x old) = ManipValue old"
| "saved (UnsignedChange x old) = UnsignedValue old"
| "saved (IntChange x old) = IntValue old"

text \<open>
  Modelled from the spec: \<open>SettingChange<T>::pop\<close> and \<open>SettingChanges::restore\<close> of the
  absent \<open>setting.h\<close>. Undoing a change reinstates the value it holds in the option it
  names; \<open>restore\<close> does so for every change of a log, in the order of recording.
\<close>

fun pop :: "SettingChange \<Rightarrow> EmitterState \<Rightarrow> EmitterState" where
  "pop (ManipChange x old) s = s\<lparr>manipSettings := (manipSettings s)(x := old)\<rparr>"
| "pop (UnsignedChange x old) s = s\<lparr>unsignedSettings := (unsignedSettings s)(x := old)\<rparr>"
| "pop (IntChange x old) s = s\<lparr>intSettings := (intSettings s)(x := old)\<rparr>"

fun restore :: "SettingChanges \<Rightarrow> EmitterState \<Rightarrow> EmitterState" where
  "restore [] s = s"
| "restore (c # cs) s = restore cs (pop c s)"

text \<open>
  Modelled from the spec: \<open>SettingChanges::push\<close> as the log of local changes uses it.
  Section 4.2: recording is idempotent, an option that already has an undo record keeps
  that one record.
\<close>

definition Record :: "SettingChange \<Rightarrow> SettingChanges \<Rightarrow> SettingChanges" where
  "Record c cs = (if target c \<in> set (map target cs) then cs else cs @ [c])"

text \<open>
  Modelled from the spec: the member template \<open>EmitterState::_Set\<close> of the absent
  \<open>emitterstate.h\<close>, one function per instance. Both scopes replace the option's value
  (section 4.1). A local change is recorded, with the value it replaced, in
  \<open>m_modifiedSettings\<close>: that is the log which \<open>BeginGroup\<close> (line 70) hands over to the
  group it opens and which \<open>ClearModifiedSettings\<close> empties. A global change is recorded,
  with the value it sets, in \<open>m_globalModifiedSettings\<close>, the log that \<open>EndGroup\<close> (line 98)
  restores because "some global settings that we changed may have been overridden by a
  local setting we just popped".
\<close>

fun Set_manip :: "manip_setting \<Rightarrow> EMITTER_MANIP \<Rightarrow> FmtScope \<Rightarrow> EmitterState \<Rightarrow> EmitterState" where
  "Set_manip fmt v FmtScope_Local s =
     s\<lparr>m_modifiedSettings := Record (ManipChange fmt (manipSettings s fmt)) (m_modifiedSettings s),
       manipSettings := (manipSettings s)(fmt := v)\<rparr>"
| "Set_manip fmt v FmtScope_Global s =
     s\<lparr>manipSettings := (manipSettings s)(fmt := v),
       m_globalModifiedSettings := m_globalModifiedSettings s @ [ManipChange fmt v]\<rparr>"

fun Set_unsigned :: "unsigned_setting \<Rightarrow> 32 word \<Rightarrow> FmtScope \<Rightarrow> EmitterState \<Rightarrow> EmitterState" where
  "Set_unsigned fmt v FmtScope_Local s =
     s\<lparr>m_modifiedSettings := Record (UnsignedChange fmt (unsignedSettings s fmt)) (m_modifiedSettings s),
       unsignedSettings := (unsignedSettings s)(fmt := v)\<rparr>"
| "Set_unsigned fmt v FmtScope_Global s =
     s\<lparr>unsignedSettings := (unsignedSettings s)(fmt := v),
       m_globalModifiedSettings := m_globalModifiedSettings s @ [UnsignedChange fmt v]\<rparr>"

fun Set_int :: "int_setting \<Rightarrow> 32 word \<Rightarrow> FmtScope \<Rightarrow> EmitterState \<Rightarrow> EmitterState" where
  "Set_int fmt v FmtScope_Local s =
     s\<lparr>m_modifiedSettings := Record (IntChange fmt (intSettings s fmt)) (m_modifiedSettings s),
       intSettings := (intSettings s)(fmt := v)\<rparr>"
| "Set_int fmt v FmtScope_Global s =
     s\<lparr>intSettings := (intSettings s)(fmt := v),
       m_globalModifiedSettings := m_globalModifiedSettings s @ [IntChange fmt v]\<rparr>"

section \<open>Construction and the error state\<close>

text \<open>The defaults that the constructor sets, lines 10 to 23.\<close>

fun default_manip :: "manip_setting \<Rightarrow> EMITTER_MANIP" where
  "default_manip m_charset = EmitNonAscii"
| "default_manip m_strFmt = Auto"
| "default_manip m_boolFmt = TrueFalseBool"
| "default_manip m_boolLengthFmt = LongBool"
| "default_manip m_boolCaseFmt = LowerCase"
| "default_manip m_intFmt = Dec"
| "default_manip m_seqFmt = Block"
| "default_manip m_mapFmt = Block"
| "default_manip m_mapKeyFmt = Auto"

fun default_unsigned :: "unsigned_setting \<Rightarrow> 32 word" where
  "default_unsigned m_indent = 2"
| "default_unsigned m_preCommentIndent = 2"
| "default_unsigned m_postCommentIndent = 1"

fun default_int :: "int_setting \<Rightarrow> 32 word" where
  "default_int m_floatPrecision = 6"
| "default_int m_doublePrecision = 15"

definition EmitterState_new :: EmitterState where
  "EmitterState_new =
     \<lparr>m_isGood = True, m_lastError = [],
      manipSettings = default_manip, unsignedSettings = default_unsigned,
      intSettings = default_int,
      m_modifiedSettings = [], m_globalModifiedSettings = [],
      m_groups = [], m_curIndent = 0, m_hasAnchor = False, m_hasTag = False\<rparr>"

text \<open>
  \<open>ErrorMsg::UNMATCHED_GROUP_TAG\<close> is a string constant of the absent
  \<open>yaml-cpp/exceptions.h\<close>; only its identity matters here.
\<close>

definition UNMATCHED_GROUP_TAG :: string where
  "UNMATCHED_GROUP_TAG = ''unmatched group tag''"

text \<open>
  Modelled from the spec: \<open>EmitterState::SetError\<close> and \<open>EmitterState::good\<close> of the absent
  \<open>emitterstate.h\<close>. Section 4.3: the failure state is set with the message and control
  returns to the caller; section 6: \<open>IsOk\<close> reads the flag.
\<close>

definition SetError :: "string \<Rightarrow> EmitterState \<Rightarrow> EmitterState" where
  "SetError msg s = s\<lparr>m_isGood := False, m_lastError := msg\<rparr>"

definition good :: "EmitterState \<Rightarrow> bool" where
  "good s = m_isGood s"

section \<open>Nodes and groups\<close>

definition BeginNode :: "EmitterState \<Rightarrow> EmitterState" where
  "BeginNode s =
     (let s1 = (case m_groups s of
                  [] \<Rightarrow> s
                | g # gs \<Rightarrow> s\<lparr>m_groups := g\<lparr>childCount := childCount g + 1\<rparr> # gs\<rparr>)
      in s1\<lparr>m_hasAnchor := False, m_hasTag := False\<rparr>)"

definition BeginScalar :: "EmitterState \<Rightarrow> EmitterState" where
  "BeginScalar s = BeginNode s"

definition CurGroupType :: "EmitterState \<Rightarrow> GroupType" where
  "CurGroupType s = (case m_groups s of [] \<Rightarrow> GroupType_None | g # gs \<Rightarrow> type g)"

definition CurGroupFlowType :: "EmitterState \<Rightarrow> FlowType" where
  "CurGroupFlowType s =
     (case m_groups s of
        [] \<Rightarrow> FlowType_None
      | g # gs \<Rightarrow> (if flow g = Flow then FlowType_Flow else FlowType_Block))"

definition CurGroupIndent :: "EmitterState \<Rightarrow> 32 word" where
  "CurGroupIndent s = (case m_groups s of [] \<Rightarrow> 0 | g # gs \<Rightarrow> indent g)"

definition CurGroupChildCount :: "EmitterState \<Rightarrow> 64 word" where
  "CurGroupChildCount s = (case m_groups s of [] \<Rightarrow> 0 | g # gs \<Rightarrow> childCount g)"

text \<open>
  \<open>GetIndent\<close> is the inline getter of \<open>m_indent\<close> in the absent \<open>emitterstate.h\<close>, the
  counterpart of \<open>SetIndent\<close>: it reads the configured indent width as an \<open>int\<close>.
\<close>

definition GetIndent :: "EmitterState \<Rightarrow> 32 word" where
  "GetIndent s = unsignedSettings s m_indent"

definition GetFlowType :: "GroupType \<Rightarrow> EmitterState \<Rightarrow> EMITTER_MANIP" where
  "GetFlowType groupType s =
     (if CurGroupFlowType s = FlowType_Flow then Flow
      else (if groupType = GroupType_Seq then manipSettings s m_seqFmt
            else manipSettings s m_mapFmt))"

text \<open>
  \<open>BeginGroup\<close>, lines 60 to 77. The new \<open>Group\<close> starts with no children. The assignment
  at line 70 transfers the log of pending local changes to the group, as the comment there
  says, so \<open>m_modifiedSettings\<close> is empty afterwards.
\<close>

definition BeginGroup :: "GroupType \<Rightarrow> EmitterState \<Rightarrow> EmitterState" where
  "BeginGroup t s0 =
     (let s1 = BeginNode s0;
          lastGroupIndent = (case m_groups s1 of [] \<Rightarrow> 0 | g # gs \<Rightarrow> indent g);
          s2 = s1\<lparr>m_curIndent := m_curIndent s1 + lastGroupIndent\<rparr>;
          pGroup = \<lparr>type = t, flow = GetFlowType t s2, indent = GetIndent s2,
                    childCount = 0, modifiedSettings = m_modifiedSettings s2\<rparr>
      in s2\<lparr>m_modifiedSettings := [], m_groups := pGroup # m_groups s2\<rparr>)"

text \<open>
  Modelled from the spec: the destructor of \<open>Group\<close>, which runs when the \<open>auto_ptr\<close> of
  line 86 leaves its block, on the early return of line 88 as well. Destroying the group
  undoes the local changes it holds (the comment of lines 96 and 97: "a local setting we
  just popped"; section 4.2: a local override never leaks past its context).
\<close>

definition destroy_Group :: "Group \<Rightarrow> EmitterState \<Rightarrow> EmitterState" where
  "destroy_Group g s = restore (modifiedSettings g) s"

text \<open>
  \<open>EndGroup\<close>, lines 79 to 99. The result is \<open>None\<close> when the assertion of line 93 fails and
  the program aborts. The comparison and the subtraction are those of \<open>unsigned\<close>.
\<close>

definition EndGroup :: "GroupType \<Rightarrow> EmitterState \<Rightarrow> EmitterState option" where
  "EndGroup t s =
     (case m_groups s of
        [] \<Rightarrow> Some (SetError UNMATCHED_GROUP_TAG s)
      | pFinishedGroup # gs \<Rightarrow>
          (let s1 = s\<lparr>m_groups := gs\<rparr> in
           if type pFinishedGroup \<noteq> t
           then Some (destroy_Group pFinishedGroup (SetError UNMATCHED_GROUP_TAG s1))
           else
             (let s2 = destroy_Group pFinishedGroup s1;
                  lastIndent = (case m_groups s2 of [] \<Rightarrow> 0 | g # gs' \<Rightarrow> indent g)
              in if \<not> lastIndent \<le> m_curIndent s2 then None
                 else Some (restore (m_globalModifiedSettings s2)
                              (s2\<lparr>m_curIndent := m_curIndent s2 - lastIndent\<rparr>)))))"

section \<open>The setters\<close>

definition SetOutputCharset :: "EMITTER_MANIP \<Rightarrow> FmtScope \<Rightarrow> EmitterState \<Rightarrow> bool \<times> EmitterState" where
  "SetOutputCharset val scope s =
     (case val of
        EmitNonAscii \<Rightarrow> (True, Set_manip m_charset val scope s)
      | EscapeNonAscii \<Rightarrow> (True, Set_manip m_charset val scope s)
      | _ \<Rightarrow> (False, s))"

definition SetStringFormat :: "EMITTER_MANIP \<Rightarrow> FmtScope \<Rightarrow> EmitterState \<Rightarrow> bool \<times> EmitterState" where
  "SetStringFormat val scope s =
     (case val of
        Auto \<Rightarrow> (True, Set_manip m_strFmt val scope s)
      | SingleQuoted \<Rightarrow> (True, Set_manip m_strFmt val scope s)
      | DoubleQuoted \<Rightarrow> (True, Set_manip m_strFmt val scope s)
      | Literal \<Rightarrow> (True, Set_manip m_strFmt val scope s)
      | _ \<Rightarrow> (False, s))"

definition SetBoolFormat :: "EMITTER_MANIP \<Rightarrow> FmtScope \<Rightarrow> EmitterState \<Rightarrow> bool \<times> EmitterState" where
  "SetBoolFormat val scope s =
     (case val of
        OnOffBool \<Rightarrow> (True, Set_manip m_boolFmt val scope s)
      | TrueFalseBool \<Rightarrow> (True, Set_manip m_boolFmt val scope s)
      | YesNoBool \<Rightarrow> (True, Set_manip m_boolFmt val scope s)
      | _ \<Rightarrow> (False, s))"

definition SetBoolLengthFormat :: "EMITTER_MANIP \<Rightarrow> FmtScope \<Rightarrow> EmitterState \<Rightarrow> bool \<times> EmitterState" where
  "SetBoolLengthFormat val scope s =
     (case val of
        LongBool \<Rightarrow> (True, Set_manip m_boolLengthFmt val scope s)
      | ShortBool \<Rightarrow> (True, Set_manip m_boolLengthFmt val scope s)
      | _ \<Rightarrow> (False, s))"

definition SetBoolCaseFormat :: "EMITTER_MANIP \<Rightarrow> FmtScope \<Rightarrow> EmitterState \<Rightarrow> bool \<times> EmitterState" where
  "SetBoolCaseFormat val scope s =
     (case val of
        UpperCase \<Rightarrow> (True, Set_manip m_boolCaseFmt val scope s)
      | LowerCase \<Rightarrow> (True, Set_manip m_boolCaseFmt val scope s)
      | CamelCase \<Rightarrow> (True, Set_manip m_boolCaseFmt val scope s)
      | _ \<Rightarrow> (False, s))"

definition SetIntFormat :: "EMITTER_MANIP \<Rightarrow> FmtScope \<Rightarrow> EmitterState \<Rightarrow> bool \<times> EmitterState" where
  "SetIntFormat val scope s =
     (case val of
        Dec \<Rightarrow> (True, Set_manip m_intFmt val scope s)
      | Hex \<Rightarrow> (True, Set_manip m_intFmt val scope s)
      | Oct \<Rightarrow> (True, Set_manip m_intFmt val scope s)
      | _ \<Rightarrow> (False, s))"

definition SetIndent :: "32 word \<Rightarrow> FmtScope \<Rightarrow> EmitterState \<Rightarrow> bool \<times> EmitterState" where
  "SetIndent val scope s =
     (if val = 0 then (False, s) else (True, Set_unsigned m_indent val scope s))"

definition SetPreCommentIndent :: "32 word \<Rightarrow> FmtScope \<Rightarrow> EmitterState \<Rightarrow> bool \<times> EmitterState" where
  "SetPreCommentIndent val scope s =
     (if val = 0 then (False, s) else (True, Set_unsigned m_preCommentIndent val scope s))"

definition SetPostCommentIndent :: "32 word \<Rightarrow> FmtScope \<Rightarrow> EmitterState \<Rightarrow> bool \<times> EmitterState" where
  "SetPostCommentIndent val scope s =
     (if val = 0 then (False, s) else (True, Set_unsigned m_postCommentIndent val scope s))"

definition SetFlowType :: "GroupType \<Rightarrow> EMITTER_MANIP \<Rightarrow> FmtScope \<Rightarrow> EmitterState \<Rightarrow> bool \<times> EmitterState" where
  "SetFlowType groupType val scope s =
     (case val of
        Block \<Rightarrow> (True, Set_manip (if groupType = GroupType_Seq then m_seqFmt else m_mapFmt) val scope s)
      | Flow \<Rightarrow> (True, Set_manip (if groupType = GroupType_Seq then m_seqFmt else m_mapFmt) val scope s)
      | _ \<Rightarrow> (False, s))"

definition SetMapKeyFormat :: "EMITTER_MANIP \<Rightarrow> FmtScope \<Rightarrow> EmitterState \<Rightarrow> bool \<times> EmitterState" where
  "SetMapKeyFormat val scope s =
     (case val of
        Auto \<Rightarrow> (True, Set_manip m_mapKeyFmt val scope s)
      | LongKey \<Rightarrow> (True, Set_manip m_mapKeyFmt val scope s)
      | _ \<Rightarrow> (False, s))"

text \<open>
  \<open>std::numeric_limits<float>::digits10\<close> and \<open>std::numeric_limits<double>::digits10\<close> of
  the standard library, for the IEEE 754 single and double formats.
\<close>

definition float_digits10 :: int where
  "float_digits10 = 6"

definition double_digits10 :: int where
  "double_digits10 = 15"

definition SetFloatPrecision :: "32 word \<Rightarrow> FmtScope \<Rightarrow> EmitterState \<Rightarrow> bool \<times> EmitterState" where
  "SetFloatPrecision val scope s =
     (if sint val < 0 \<or> sint val > float_digits10 then (False, s)
      else (True, Set_int m_floatPrecision val scope s))"

definition SetDoublePrecision :: "32 word \<Rightarrow> FmtScope \<Rightarrow> EmitterState \<Rightarrow> bool \<times> EmitterState" where
  "SetDoublePrecision val scope s =
     (if sint val < 0 \<or> sint val > double_digits10 then (False, s)
      else (True, Set_int m_doublePrecision val scope s))"

text \<open>
  \<open>SetLocalValue\<close>, lines 33 to 44: the value is offered at local scope to every setter
  that takes a manipulator, and the results are dropped.
\<close>

definition SetLocalValue :: "EMITTER_MANIP \<Rightarrow> EmitterState \<Rightarrow> EmitterState" where
  "SetLocalValue val s0 =
     (let s1 = snd (SetOutputCharset val FmtScope_Local s0);
          s2 = snd (SetStringFormat val FmtScope_Local s1);
          s3 = snd (SetBoolFormat val FmtScope_Local s2);
          s4 = snd (SetBoolCaseFormat val FmtScope_Local s3);
          s5 = snd (SetBoolLengthFormat val FmtScope_Local s4);
          s6 = snd (SetIntFormat val FmtScope_Local s5);
          s7 = snd (SetFlowType GroupType_Seq val FmtScope_Local s6);
          s8 = snd (SetFlowType GroupType_Map val FmtScope_Local s7)
      in snd (SetMapKeyFormat val FmtScope_Local s8))"

section \<open>Calls of the interface\<close>

text \<open>
  One value per call of a setter, so that a property of "every setter" or "every concept"
  is one statement: \<open>invoke\<close> performs the call, \<open>concept\<close> is the option the call
  addresses and \<open>requested\<close> the value it asks for.
\<close>

datatype setter_call =
    Call_SetOutputCharset EMITTER_MANIP
  | Call_SetStringFormat EMITTER_MANIP
  | Call_SetBoolFormat EMITTER_MANIP
  | Call_SetBoolLengthFormat EMITTER_MANIP
  | Call_SetBoolCaseFormat EMITTER_MANIP
  | Call_SetIntFormat EMITTER_MANIP
  | Call_SetIndent "32 word"
  | Call_SetPreCommentIndent "32 word"
  | Call_SetPostCommentIndent "32 word"
  | Call_SetFlowType GroupType EMITTER_MANIP
  | Call_SetMapKeyFormat EMITTER_MANIP
  | Call_SetFloatPrecision "32 word"
  | Call_SetDoublePrecision "32 word"

fun invoke :: "setter_call \<Rightarrow> FmtScope \<Rightarrow> EmitterState \<Rightarrow> bool \<times> EmitterState" where
  "invoke (Call_SetOutputCharset v) scope s = SetOutputCharset v scope s"
| "invoke (Call_SetStringFormat v) scope s = SetStringFormat v scope s"
| "invoke (Call_SetBoolFormat v) scope s = SetBoolFormat v scope s"
| "invoke (Call_SetBoolLengthFormat v) scope s = SetBoolLengthFormat v scope s"
| "invoke (Call_SetBoolCaseFormat v) scope s = SetBoolCaseFormat v scope s"
| "invoke (Call_SetIntFormat v) scope s = SetIntFormat v scope s"
| "invoke (Call_SetIndent v) scope s = SetIndent v scope s"
| "invoke (Call_SetPreCommentIndent v) scope s = SetPreCommentIndent v scope s"
| "invoke (Call_SetPostCommentIndent v) scope s = SetPostCommentIndent v scope s"
| "invoke (Call_SetFlowType k v) scope s = SetFlowType k v scope s"
| "invoke (Call_SetMapKeyFormat v) scope s = SetMapKeyFormat v scope s"
| "invoke (Call_SetFloatPrecision v) scope s = SetFloatPrecision v scope s"
| "invoke (Call_SetDoublePrecision v) scope s = SetDoublePrecision v scope s"

fun concept :: "setter_call \<Rightarrow> setting" where
  "concept (Call_SetOutputCharset v) = ManipSetting m_charset"
| "concept (Call_SetStringFormat v) = ManipSetting m_strFmt"
| "concept (Call_SetBoolFormat v) = ManipSetting m_boolFmt"
| "concept (Call_SetBoolLengthFormat v) = ManipSetting m_boolLengthFmt"
| "concept (Call_SetBoolCaseFormat v) = ManipSetting m_boolCaseFmt"
| "concept (Call_SetIntFormat v) = ManipSetting m_intFmt"
| "concept (Call_SetIndent v) = UnsignedSetting m_indent"
| "concept (Call_SetPreCommentIndent v) = UnsignedSetting m_preCommentIndent"
| "concept (Call_SetPostCommentIndent v) = UnsignedSetting m_postCommentIndent"
| "concept (Call_SetFlowType k v) =
     ManipSetting (if k = GroupType_Seq then m_seqFmt else m_mapFmt)"
| "concept (Call_SetMapKeyFormat v) = ManipSetting m_mapKeyFmt"
| "concept (Call_SetFloatPrecision v) = IntSetting m_floatPrecision"
| "concept (Call_SetDoublePrecision v) = IntSetting m_doublePrecision"

fun requested :: "setter_call \<Rightarrow> setting_value" where
  "requested (Call_SetOutputCharset v) = ManipValue v"
| "requested (Call_SetStringFormat v) = ManipValue v"
| "requested (Call_SetBoolFormat v) = ManipValue v"
| "requested (Call_SetBoolLengthFormat v) = ManipValue v"
| "requested (Call_SetBoolCaseFormat v) = ManipValue v"
| "requested (Call_SetIntFormat v) = ManipValue v"
| "requested (Call_SetIndent v) = UnsignedValue v"
| "requested (Call_SetPreCommentIndent v) = UnsignedValue v"
| "requested (Call_SetPostCommentIndent v) = UnsignedValue v"
| "requested (Call_SetFlowType k v) = ManipValue v"
| "requested (Call_SetMapKeyFormat v) = ManipValue v"
| "requested (Call_SetFloatPrecision v) = IntValue v"
| "requested (Call_SetDoublePrecision v) = IntValue v"

text \<open>
  The legal domain of each concept in the spec's words (sections 4.1, 6 and 7): the
  enumerators that belong to the concept, a non-zero width for the three indents, and a
  precision between zero and the number of decimal digits of the type, 6 and 15.
\<close>

fun legal :: "setter_call \<Rightarrow> bool" where
  "legal (Call_SetOutputCharset v) = (v \<in> {EmitNonAscii, EscapeNonAscii})"
| "legal (Call_SetStringFormat v) = (v \<in> {Auto, SingleQuoted, DoubleQuoted, Literal})"
| "legal (Call_SetBoolFormat v) = (v \<in> {YesNoBool, TrueFalseBool, OnOffBool})"
| "legal (Call_SetBoolLengthFormat v) = (v \<in> {LongBool, ShortBool})"
| "legal (Call_SetBoolCaseFormat v) = (v \<in> {UpperCase, LowerCase, CamelCase})"
| "legal (Call_SetIntFormat v) = (v \<in> {Dec, Hex, Oct})"
| "legal (Call_SetIndent v) = (v \<noteq> 0)"
| "legal (Call_SetPreCommentIndent v) = (v \<noteq> 0)"
| "legal (Call_SetPostCommentIndent v) = (v \<noteq> 0)"
| "legal (Call_SetFlowType k v) = (v \<in> {Block, Flow})"
| "legal (Call_SetMapKeyFormat v) = (v \<in> {Auto, LongKey})"
| "legal (Call_SetFloatPrecision v) = (0 \<le> sint v \<and> sint v \<le> 6)"
| "legal (Call_SetDoublePrecision v) = (0 \<le> sint v \<and> sint v \<le> 15)"

text \<open>
  A sequence of calls made by the renderer, run in order. The run is \<open>None\<close> from the call
  on at which the assertion of \<open>EndGroup\<close> fails. The result of a setter is dropped, as
  \<open>SetLocalValue\<close> drops it.
\<close>

datatype call =
    OpBeginNode
  | OpBeginScalar
  | OpBeginGroup GroupType
  | OpEndGroup GroupType
  | OpSet setter_call FmtScope
  | OpSetLocalValue EMITTER_MANIP

fun step :: "call \<Rightarrow> EmitterState \<Rightarrow> EmitterState option" where
  "step OpBeginNode s = Some (BeginNode s)"
| "step OpBeginScalar s = Some (BeginScalar s)"
| "step (OpBeginGroup t) s = Some (BeginGroup t s)"
| "step (OpEndGroup t) s = EndGroup t s"
| "step (OpSet c scope) s = Some (snd (invoke c scope s))"
| "step (OpSetLocalValue v) s = Some (SetLocalValue v s)"

fun run :: "call list \<Rightarrow> EmitterState \<Rightarrow> EmitterState option" where
  "run [] s = Some s"
| "run (c # cs) s = (case step c s of None \<Rightarrow> None | Some s' \<Rightarrow> run cs s')"

section \<open>Notions used in the statements\<close>

text \<open>
  What a log reinstates for an option when it is restored: the value held by the last
  change recorded for the option, if there is one.
\<close>

fun reinstated :: "setting \<Rightarrow> SettingChanges \<Rightarrow> setting_value option" where
  "reinstated x [] = None"
| "reinstated x (c # cs) =
     (case reinstated x cs of
        Some v \<Rightarrow> Some v
      | None \<Rightarrow> (if target c = x then Some (saved c) else None))"

text \<open>
  The condition that the assertion of line 93 checks when the innermost group is closed:
  the accumulated indent is at least the indent of the group below it.
\<close>

definition indent_assertion :: "EmitterState \<Rightarrow> bool" where
  "indent_assertion s =
     (case m_groups s of
        [] \<Rightarrow> True
      | g # gs \<Rightarrow> (case gs of [] \<Rightarrow> 0 | h # hs \<Rightarrow> indent h) \<le> m_curIndent s)"

text \<open>
  A sequence of calls that is well nested inside an open group: every \<open>EndGroup\<close> closes
  the group opened by the nearest unmatched \<open>BeginGroup\<close> of the sequence, with its kind,
  and no group of the sequence is left open. The first argument lists the kinds of the
  groups of the sequence that are open, innermost first.
\<close>

fun balanced :: "GroupType list \<Rightarrow> call list \<Rightarrow> bool" where
  "balanced st [] = (st = [])"
| "balanced st (OpBeginGroup k # cs) = balanced (k # st) cs"
| "balanced st (OpEndGroup k # cs) =
     (case st of [] \<Rightarrow> False | k' # st' \<Rightarrow> k = k' \<and> balanced st' cs)"
| "balanced st (OpBeginNode # cs) = balanced st cs"
| "balanced st (OpBeginScalar # cs) = balanced st cs"
| "balanced st (OpSet c scope # cs) = balanced st cs"
| "balanced st (OpSetLocalValue v # cs) = balanced st cs"

text \<open>The call is a global set addressed to the given concept.\<close>

fun sets_globally :: "setting \<Rightarrow> call \<Rightarrow> bool" where
  "sets_globally x (OpSet c FmtScope_Global) = (concept c = x)"
| "sets_globally x other = False"

text \<open>
  What stays of an open group while nodes are added to it: its kind, its indent and the
  local changes it holds.
\<close>

definition shape :: "Group \<Rightarrow> GroupType \<times> 32 word \<times> SettingChanges" where
  "shape g = (type g, indent g, modifiedSettings g)"

definition shapes :: "EmitterState \<Rightarrow> (GroupType \<times> 32 word \<times> SettingChanges) list" where
  "shapes s = map shape (m_groups s)"

definition enclosing_indent :: "(GroupType \<times> 32 word \<times> SettingChanges) list \<Rightarrow> 32 word" where
  "enclosing_indent S = sum_list (map (\<lambda>p. fst (snd p)) (tl S))"

section \<open>Frame lemmas\<close>

lemmas setter_defs =
  SetOutputCharset_def SetStringFormat_def SetBoolFormat_def SetBoolLengthFormat_def
  SetBoolCaseFormat_def SetIntFormat_def SetIndent_def SetPreCommentIndent_def
  SetPostCommentIndent_def SetFlowType_def SetMapKeyFormat_def SetFloatPrecision_def
  SetDoublePrecision_def

lemma pop_frame [simp]:
  "m_isGood (pop c s) = m_isGood s"
  "m_lastError (pop c s) = m_lastError s"
  "m_groups (pop c s) = m_groups s"
  "m_curIndent (pop c s) = m_curIndent s"
  "m_modifiedSettings (pop c s) = m_modifiedSettings s"
  "m_globalModifiedSettings (pop c s) = m_globalModifiedSettings s"
  "m_hasAnchor (pop c s) = m_hasAnchor s"
  "m_hasTag (pop c s) = m_hasTag s"
  by (cases c; simp)+

lemma restore_frame [simp]:
  "m_isGood (restore cs s) = m_isGood s"
  "m_lastError (restore cs s) = m_lastError s"
  "m_groups (restore cs s) = m_groups s"
  "m_curIndent (restore cs s) = m_curIndent s"
  "m_modifiedSettings (restore cs s) = m_modifiedSettings s"
  "m_globalModifiedSettings (restore cs s) = m_globalModifiedSettings s"
  "m_hasAnchor (restore cs s) = m_hasAnchor s"
  "m_hasTag (restore cs s) = m_hasTag s"
  by (induction cs arbitrary: s; simp)+

lemma current_frame [simp]:
  "current x (a\<lparr>m_curIndent := i\<rparr>) = current x a"
  "current x (a\<lparr>m_groups := j\<rparr>) = current x a"
  "current x (a\<lparr>m_modifiedSettings := l\<rparr>) = current x a"
  "current x (a\<lparr>m_hasAnchor := b\<rparr>) = current x a"
  "current x (a\<lparr>m_hasTag := b\<rparr>) = current x a"
  "current x (a\<lparr>m_isGood := b\<rparr>) = current x a"
  "current x (a\<lparr>m_lastError := e\<rparr>) = current x a"
  by (cases x; simp)+

lemma pop_current: "current x (pop c s) = (if target c = x then saved c else current x s)"
  by (cases c; cases x; auto)

lemma restore_current:
  "current x (restore cs s) = (case reinstated x cs of None \<Rightarrow> current x s | Some v \<Rightarrow> v)"
  by (induction cs arbitrary: s) (auto simp: pop_current split: option.splits)

lemma reinstated_append:
  "reinstated x (cs @ [c]) = (if target c = x then Some (saved c) else reinstated x cs)"
  by (induction cs) (auto split: option.splits)

lemma reinstated_None: "reinstated x cs = None \<longleftrightarrow> x \<notin> set (map target cs)"
  by (induction cs) (auto split: option.splits)

lemma Set_frame [simp]:
  "m_isGood (Set_manip x v scope s) = m_isGood s"
  "m_isGood (Set_unsigned y w scope s) = m_isGood s"
  "m_isGood (Set_int z w scope s) = m_isGood s"
  "m_groups (Set_manip x v scope s) = m_groups s"
  "m_groups (Set_unsigned y w scope s) = m_groups s"
  "m_groups (Set_int z w scope s) = m_groups s"
  "m_curIndent (Set_manip x v scope s) = m_curIndent s"
  "m_curIndent (Set_unsigned y w scope s) = m_curIndent s"
  "m_curIndent (Set_int z w scope s) = m_curIndent s"
  by (cases scope; simp)+

lemma invoke_frame [simp]:
  "m_isGood (snd (invoke c scope s)) = m_isGood s"
  "m_groups (snd (invoke c scope s)) = m_groups s"
  "m_curIndent (snd (invoke c scope s)) = m_curIndent s"
  by (cases c; simp add: setter_defs split: EMITTER_MANIP.splits)+

lemma invoke_Local_global_log [simp]:
  "m_globalModifiedSettings (snd (invoke c FmtScope_Local s)) = m_globalModifiedSettings s"
  by (cases c; simp add: setter_defs split: EMITTER_MANIP.splits)

lemma SetLocalValue_invoke:
  "SetLocalValue v s =
     snd (invoke (Call_SetMapKeyFormat v) FmtScope_Local
      (snd (invoke (Call_SetFlowType GroupType_Map v) FmtScope_Local
       (snd (invoke (Call_SetFlowType GroupType_Seq v) FmtScope_Local
        (snd (invoke (Call_SetIntFormat v) FmtScope_Local
         (snd (invoke (Call_SetBoolLengthFormat v) FmtScope_Local
          (snd (invoke (Call_SetBoolCaseFormat v) FmtScope_Local
           (snd (invoke (Call_SetBoolFormat v) FmtScope_Local
            (snd (invoke (Call_SetStringFormat v) FmtScope_Local
             (snd (invoke (Call_SetOutputCharset v) FmtScope_Local s)))))))))))))))))"
  by (simp add: SetLocalValue_def Let_def)

lemma SetLocalValue_frame [simp]:
  "m_isGood (SetLocalValue v s) = m_isGood s"
  "m_groups (SetLocalValue v s) = m_groups s"
  "m_curIndent (SetLocalValue v s) = m_curIndent s"
  "m_globalModifiedSettings (SetLocalValue v s) = m_globalModifiedSettings s"
  unfolding SetLocalValue_invoke
  by (simp_all only: invoke_frame invoke_Local_global_log)

lemma invoke_legal_value:
  "legal c \<Longrightarrow> current (concept c) (snd (invoke c scope s)) = requested c"
  by (cases c; cases scope)
     (auto simp: setter_defs float_digits10_def double_digits10_def)

lemma invoke_legal_Global_log:
  "legal c \<Longrightarrow> \<exists>ch. target ch = concept c \<and> saved ch = requested c \<and>
     m_globalModifiedSettings (snd (invoke c FmtScope_Global s))
       = m_globalModifiedSettings s @ [ch]"
  by (cases c)
     (auto simp: setter_defs float_digits10_def double_digits10_def)


lemma BeginNode_current [simp]: "current x (BeginNode s) = current x s"
  by (cases x; simp add: BeginNode_def Let_def split: list.splits)

lemma BeginNode_frame [simp]:
  "m_curIndent (BeginNode s) = m_curIndent s"
  "m_modifiedSettings (BeginNode s) = m_modifiedSettings s"
  "m_globalModifiedSettings (BeginNode s) = m_globalModifiedSettings s"
  "m_isGood (BeginNode s) = m_isGood s"
  "CurGroupIndent (BeginNode s) = CurGroupIndent s"
  "CurGroupFlowType (BeginNode s) = CurGroupFlowType s"
  "CurGroupType (BeginNode s) = CurGroupType s"
  "GetIndent (BeginNode s) = GetIndent s"
  "map indent (m_groups (BeginNode s)) = map indent (m_groups s)"
  "manipSettings (BeginNode s) = manipSettings s"
  "unsignedSettings (BeginNode s) = unsignedSettings s"
  "intSettings (BeginNode s) = intSettings s"
  unfolding BeginNode_def CurGroupIndent_def CurGroupFlowType_def CurGroupType_def
    GetIndent_def Let_def
  by (simp_all split: list.splits)

lemma BeginGroup_current [simp]: "current x (BeginGroup t s) = current x s"
  by (cases x; simp add: BeginGroup_def Let_def)

lemma BeginGroup_frame [simp]:
  "m_curIndent (BeginGroup t s) = m_curIndent s + CurGroupIndent s"
  "m_modifiedSettings (BeginGroup t s) = []"
  "m_globalModifiedSettings (BeginGroup t s) = m_globalModifiedSettings s"
  "m_isGood (BeginGroup t s) = m_isGood s"
  "CurGroupIndent (BeginGroup t s) = GetIndent s"
  "CurGroupType (BeginGroup t s) = t"
  "GetIndent (BeginGroup t s) = GetIndent s"
  "map indent (m_groups (BeginGroup t s)) = GetIndent s # map indent (m_groups s)"
  unfolding BeginGroup_def BeginNode_def CurGroupIndent_def CurGroupType_def
    GetIndent_def Let_def
  by (simp_all split: list.splits)

lemma BeginGroup_groups:
  "\<exists>g. m_groups (BeginGroup t s) = g # m_groups (BeginNode s) \<and> type g = t \<and>
       indent g = GetIndent s \<and> childCount g = 0 \<and>
       modifiedSettings g = m_modifiedSettings s"
  by (simp add: BeginGroup_def Let_def GetIndent_def)


lemma EndGroup_matching:
  assumes "m_groups s = g # gs" "type g = t" "indent_assertion s"
  shows "\<exists>s'. EndGroup t s = Some s' \<and> m_groups s' = gs \<and>
     (\<forall>x. current x s' =
        (case reinstated x (m_globalModifiedSettings s) of
           Some v \<Rightarrow> v
         | None \<Rightarrow> (case reinstated x (modifiedSettings g) of
                       Some v \<Rightarrow> v
                     | None \<Rightarrow> current x s)))"
proof -
  let ?s2 = "destroy_Group g (s\<lparr>m_groups := gs\<rparr>)"
  let ?li = "case gs of [] \<Rightarrow> 0 | h # hs \<Rightarrow> indent h"
  have li: "?li \<le> m_curIndent s"
    using assms by (simp add: indent_assertion_def)
  have eg: "EndGroup t s =
      Some (restore (m_globalModifiedSettings s) (?s2\<lparr>m_curIndent := m_curIndent s - ?li\<rparr>))"
    using assms(1,2) li by (simp add: EndGroup_def destroy_Group_def Let_def)
  show ?thesis
    unfolding eg
    by (auto simp: restore_current destroy_Group_def split: option.splits)
qed

lemma step_keeps_failure: "step c s = Some s' \<Longrightarrow> \<not> m_isGood s \<Longrightarrow> \<not> m_isGood s'"
  by (cases c)
     (auto simp: BeginScalar_def EndGroup_def SetError_def destroy_Group_def Let_def
        split: list.splits if_splits)

lemma run_keeps_failure: "run cs s = Some s' \<Longrightarrow> \<not> good s \<Longrightarrow> \<not> good s'"
proof (induction cs arbitrary: s)
  case Nil
  then show ?case by simp
next
  case (Cons c cs)
  then obtain s1 where s1: "step c s = Some s1" and rest: "run cs s1 = Some s'"
    by (auto split: option.splits)
  from s1 Cons.prems(2) have "\<not> good s1"
    using step_keeps_failure [of c s s1] by (simp add: good_def)
  with rest show ?case by (rule Cons.IH)
qed

section \<open>Well-nested calls inside a group\<close>

lemma run_append:
  "run (xs @ ys) s = (case run xs s of None \<Rightarrow> None | Some s' \<Rightarrow> run ys s')"
  by (induction xs arbitrary: s) (auto split: option.splits)

lemma shapes_BeginNode [simp]: "shapes (BeginNode s) = shapes s"
  by (simp add: shapes_def shape_def BeginNode_def Let_def split: list.splits)

lemma shapes_BeginGroup [simp]:
  "shapes (BeginGroup t s) = (t, GetIndent s, m_modifiedSettings s) # shapes s"
proof -
  obtain g where g: "m_groups (BeginGroup t s) = g # m_groups (BeginNode s)" "type g = t"
    "indent g = GetIndent s" "modifiedSettings g = m_modifiedSettings s"
    using BeginGroup_groups [of t s] by blast
  have "shapes (BeginGroup t s) = shape g # shapes (BeginNode s)"
    using g(1) by (simp add: shapes_def)
  then show ?thesis using g by (simp add: shape_def)
qed

lemma shapes_invoke [simp]: "shapes (snd (invoke c scope s)) = shapes s"
  by (simp add: shapes_def)

lemma shapes_SetLocalValue [simp]: "shapes (SetLocalValue v s) = shapes s"
  by (simp add: shapes_def)

lemma CurGroupIndent_shapes:
  "CurGroupIndent s = (case shapes s of [] \<Rightarrow> 0 | p # ps \<Rightarrow> fst (snd p))"
  by (simp add: CurGroupIndent_def shapes_def shape_def split: list.splits)

lemma indent_assertion_shapes:
  "indent_assertion s \<longleftrightarrow>
     (case shapes s of [] \<Rightarrow> True
      | p # ps \<Rightarrow> (case ps of [] \<Rightarrow> 0 | q # qs \<Rightarrow> fst (snd q)) \<le> m_curIndent s)"
  by (simp add: indent_assertion_def shapes_def shape_def split: list.splits)

lemma invoke_other_global:
  "\<not> sets_globally x (OpSet c scope) \<Longrightarrow>
   reinstated x (m_globalModifiedSettings (snd (invoke c scope s)))
     = reinstated x (m_globalModifiedSettings s)"
  by (cases c; cases scope)
     (auto simp: setter_defs reinstated_append split: EMITTER_MANIP.splits)

lemma EndGroup_top:
  assumes "EndGroup k s = Some s'" and "shapes s = (k, w, l) # S"
  shows "shapes s' = S \<and> m_globalModifiedSettings s' = m_globalModifiedSettings s \<and>
     m_curIndent s' = m_curIndent s - (case S of [] \<Rightarrow> 0 | q # qs \<Rightarrow> fst (snd q))"
proof -
  obtain g gs where g: "m_groups s = g # gs" "type g = k" "map shape gs = S"
    using assms(2) by (cases "m_groups s") (auto simp: shapes_def shape_def)
  have li: "(case gs of [] \<Rightarrow> 0 | h # hs \<Rightarrow> indent h) = (case S of [] \<Rightarrow> 0 | q # qs \<Rightarrow> fst (snd q))"
    using g(3) by (cases gs) (auto simp: shape_def)
  show ?thesis
    using assms(1) g li
    by (auto simp: EndGroup_def destroy_Group_def shapes_def Let_def split: if_splits)
qed

lemma balanced_run:
  assumes "balanced st body" and "\<forall>op \<in> set body. \<not> sets_globally x op"
    and "run body s = Some s'" and "map fst (take (length st) (shapes s)) = st"
  shows "shapes s' = drop (length st) (shapes s) \<and>
     reinstated x (m_globalModifiedSettings s') = reinstated x (m_globalModifiedSettings s) \<and>
     m_curIndent s' - enclosing_indent (shapes s') = m_curIndent s - enclosing_indent (shapes s)"
  using assms
proof (induction st body arbitrary: s rule: balanced.induct)
  case (1 st)
  then show ?case by simp
next
  case (2 st k cs)
  let ?s1 = "BeginGroup k s"
  have r: "run cs ?s1 = Some s'" using "2.prems"(3) by simp
  have t: "map fst (take (length (k # st)) (shapes ?s1)) = k # st"
    using "2.prems"(4) by simp
  have acc: "enclosing_indent ((k, GetIndent s, m_modifiedSettings s) # shapes s)
      = CurGroupIndent s + enclosing_indent (shapes s)"
    by (cases "shapes s") (simp_all add: enclosing_indent_def CurGroupIndent_shapes)
  from "2.IH" [OF _ _ r t] "2.prems"(1,2)
  show ?case by (auto simp: acc)
next
  case (3 st k cs)
  then obtain st' where st: "st = k # st'" and bal: "balanced st' cs"
    by (cases st) auto
  obtain s1 where s1: "EndGroup k s = Some s1" and r: "run cs s1 = Some s'"
    using "3.prems"(3) by (auto split: option.splits)
  obtain w l S where top: "shapes s = (k, w, l) # S"
    using "3.prems"(4) st by (cases "shapes s") auto
  have e: "shapes s1 = S" "m_globalModifiedSettings s1 = m_globalModifiedSettings s"
    "m_curIndent s1 = m_curIndent s - (case S of [] \<Rightarrow> 0 | q # qs \<Rightarrow> fst (snd q))"
    using EndGroup_top [OF s1 top] by simp_all
  have t: "map fst (take (length st') (shapes s1)) = st'"
    using "3.prems"(4) st top e(1) by simp
  have acc: "enclosing_indent (shapes s) =
      (case S of [] \<Rightarrow> 0 | q # qs \<Rightarrow> fst (snd q)) + enclosing_indent S"
    using top by (cases S) (simp_all add: enclosing_indent_def)
  from "3.IH" [OF st bal _ r t] "3.prems"(2)
  show ?case using st top e acc by auto
next
  case (4 st cs)
  have r: "run cs (BeginNode s) = Some s'" using "4.prems"(3) by simp
  from "4.IH" [OF _ _ r] "4.prems"(1,2,4)
  show ?case by auto
next
  case (5 st cs)
  have r: "run cs (BeginNode s) = Some s'" using "5.prems"(3) by (simp add: BeginScalar_def)
  from "5.IH" [OF _ _ r] "5.prems"(1,2,4)
  show ?case by auto
next
  case (6 st c scope cs)
  have r: "run cs (snd (invoke c scope s)) = Some s'" using "6.prems"(3) by simp
  have ng: "\<not> sets_globally x (OpSet c scope)" using "6.prems"(2) by simp
  from "6.IH" [OF _ _ r] "6.prems"(1,2,4)
  show ?case by (auto simp: invoke_other_global [OF ng])
next
  case (7 st v cs)
  have r: "run cs (SetLocalValue v s) = Some s'" using "7.prems"(3) by simp
  from "7.IH" [OF _ _ r] "7.prems"(1,2,4)
  show ?case by auto
qed


lemma shapes_top:
  assumes "shapes s = (t, w, l) # S"
  shows "\<exists>g gs. m_groups s = g # gs \<and> type g = t \<and> modifiedSettings g = l"
  using assms by (cases "m_groups s") (auto simp: shapes_def shape_def)

lemma balanced_body_closes:
  assumes "balanced [] body" and "\<forall>op \<in> set body. \<not> sets_globally x op"
    and "run body s = Some s'" and "shapes s = (t, w, l) # S" and "indent_assertion s"
  shows "\<exists>g gs. m_groups s' = g # gs \<and> type g = t \<and> modifiedSettings g = l \<and>
     indent_assertion s' \<and>
     reinstated x (m_globalModifiedSettings s') = reinstated x (m_globalModifiedSettings s)"
proof -
  have inv: "shapes s' = shapes s"
    "reinstated x (m_globalModifiedSettings s') = reinstated x (m_globalModifiedSettings s)"
    "m_curIndent s' - enclosing_indent (shapes s') = m_curIndent s - enclosing_indent (shapes s)"
    using balanced_run [OF assms(1,2,3)] by auto
  have cur: "m_curIndent s' = m_curIndent s"
    using inv(1,3) by simp
  have ia: "indent_assertion s'"
    using assms(5) unfolding indent_assertion_shapes inv(1) cur .
  show ?thesis
    using shapes_top [of s' t w l S] inv(1,2) assms(4) ia by auto
qed

lemmas run_defs =
  EmitterState_new_def BeginGroup_def BeginNode_def BeginScalar_def EndGroup_def
  SetError_def good_def GetFlowType_def GetIndent_def CurGroupFlowType_def CurGroupIndent_def
  CurGroupType_def CurGroupChildCount_def destroy_Group_def Record_def Let_def

section \<open>Nodes\<close>

text \<open>
  Claim C7. Every \<open>BeginNode\<close> clears \<open>hasAnchor\<close> and \<open>hasTag\<close>. With a group open it adds
  exactly one to the child count of the innermost group and leaves the groups below as
  they are; with no group open the stack stays empty and the child count read is still
  zero. A group starts with no children, so three \<open>BeginNode\<close> calls inside a group that
  was just opened make \<open>CurGroupChildCount\<close> read 1, 2 and 3. The count is a \<open>std::size_t\<close>,
  so "plus one" is that of the machine type.
\<close>

theorem BeginNode_resets_flags_counts_child:
  "m_hasAnchor (BeginNode s) = False \<and> m_hasTag (BeginNode s) = False \<and>
   (\<forall>g gs. m_groups s = g # gs \<longrightarrow>
        m_groups (BeginNode s) = g\<lparr>childCount := childCount g + 1\<rparr> # gs \<and>
        CurGroupChildCount (BeginNode s) = CurGroupChildCount s + 1) \<and>
   (m_groups s = [] \<longrightarrow> m_groups (BeginNode s) = [] \<and> CurGroupChildCount (BeginNode s) = 0) \<and>
   CurGroupChildCount (BeginGroup t s) = 0 \<and>
   CurGroupChildCount (BeginNode (BeginGroup t s)) = 1 \<and>
   CurGroupChildCount (BeginNode (BeginNode (BeginGroup t s))) = 2 \<and>
   CurGroupChildCount (BeginNode (BeginNode (BeginNode (BeginGroup t s)))) = 3"
  by (simp add: BeginNode_def BeginGroup_def CurGroupChildCount_def Let_def split: list.splits)

theorem BeginNode_resets_flags_counts_child_witness:
  "m_groups EmitterState_new = [] \<and>
   m_groups (BeginNode EmitterState_new) = [] \<and>
   m_groups (BeginGroup GroupType_Seq EmitterState_new) \<noteq> [] \<and>
   CurGroupChildCount (BeginGroup GroupType_Seq EmitterState_new) = 0 \<and>
   CurGroupChildCount (BeginNode (BeginGroup GroupType_Seq EmitterState_new)) = 0 + 1 \<and>
   \<not> m_hasAnchor (BeginNode (BeginGroup GroupType_Seq EmitterState_new))"
proof -
  have empty: "m_groups EmitterState_new = []"
    by (simp add: EmitterState_new_def)
  have opened: "m_groups (BeginGroup GroupType_Seq EmitterState_new) \<noteq> []"
    by (simp add: BeginGroup_def Let_def)
  then obtain g gs where top: "m_groups (BeginGroup GroupType_Seq EmitterState_new) = g # gs"
    by (cases "m_groups (BeginGroup GroupType_Seq EmitterState_new)") auto
  show ?thesis
    using empty opened top
      BeginNode_resets_flags_counts_child [of EmitterState_new GroupType_Seq]
      BeginNode_resets_flags_counts_child
        [of "BeginGroup GroupType_Seq EmitterState_new" GroupType_Seq]
    by simp
qed

section \<open>Rejected values\<close>

text \<open>
  Claim C8. Whatever the setter and the scope, a value outside the legal domain of the
  setter's concept makes the call return failure and hand back the state it was given:
  the options, the stack of groups, both logs and the error state are the same, so the
  sticky error flag is not raised.
\<close>

theorem illegal_value_rejected_silently:
  "\<not> legal c \<Longrightarrow> invoke c scope s = (False, s)"
  by (cases c)
     (auto simp: setter_defs float_digits10_def double_digits10_def
           split: EMITTER_MANIP.splits)

theorem illegal_value_rejected_silently_witness:
  "\<not> legal (Call_SetStringFormat Hex) \<and> \<not> legal (Call_SetIndent 0) \<and>
   SetStringFormat Hex FmtScope_Local EmitterState_new = (False, EmitterState_new) \<and>
   SetIndent 0 FmtScope_Global EmitterState_new = (False, EmitterState_new) \<and>
   good (snd (SetIndent 0 FmtScope_Global EmitterState_new))"
proof -
  have h1: "\<not> legal (Call_SetStringFormat Hex)" by simp
  have h2: "\<not> legal (Call_SetIndent 0)" by simp
  have ok: "good EmitterState_new" by (simp add: good_def EmitterState_new_def)
  show ?thesis
    using h1 h2 ok
      illegal_value_rejected_silently [OF h1, of FmtScope_Local EmitterState_new]
      illegal_value_rejected_silently [OF h2, of FmtScope_Global EmitterState_new]
    by simp
qed

text \<open>
  Claim C9. \<open>SetFloatPrecision\<close> returns success exactly for the values from 0 to 6 and
  \<open>SetDoublePrecision\<close> exactly for those from 0 to 15, the \<open>digits10\<close> of the IEEE single
  and double formats, and an accepted value becomes the precision. For any other value
  the call returns failure and the state it was given: the precision is what it was and
  the error state is untouched.
\<close>

theorem precision_setters_accept_exactly_range:
  "(fst (SetFloatPrecision v scope s) \<longleftrightarrow> 0 \<le> sint v \<and> sint v \<le> 6) \<and>
   (fst (SetDoublePrecision v scope s) \<longleftrightarrow> 0 \<le> sint v \<and> sint v \<le> 15) \<and>
   (0 \<le> sint v \<and> sint v \<le> 6 \<longrightarrow>
      intSettings (snd (SetFloatPrecision v scope s)) m_floatPrecision = v) \<and>
   (0 \<le> sint v \<and> sint v \<le> 15 \<longrightarrow>
      intSettings (snd (SetDoublePrecision v scope s)) m_doublePrecision = v) \<and>
   (\<not> (0 \<le> sint v \<and> sint v \<le> 6) \<longrightarrow> SetFloatPrecision v scope s = (False, s)) \<and>
   (\<not> (0 \<le> sint v \<and> sint v \<le> 15) \<longrightarrow> SetDoublePrecision v scope s = (False, s))"
  by (cases scope)
     (auto simp: SetFloatPrecision_def SetDoublePrecision_def float_digits10_def
        double_digits10_def)

theorem precision_setters_accept_exactly_range_witness:
  "sint (16 :: 32 word) = 16 \<and> sint (- 1 :: 32 word) = - 1 \<and> sint (6 :: 32 word) = 6 \<and>
   SetDoublePrecision 16 FmtScope_Global EmitterState_new = (False, EmitterState_new) \<and>
   SetDoublePrecision (- 1) FmtScope_Global EmitterState_new = (False, EmitterState_new) \<and>
   SetFloatPrecision 16 FmtScope_Global EmitterState_new = (False, EmitterState_new) \<and>
   fst (SetFloatPrecision 6 FmtScope_Global EmitterState_new) \<and>
   fst (SetDoublePrecision 6 FmtScope_Global EmitterState_new) \<and>
   intSettings (snd (SetDoublePrecision 6 FmtScope_Global EmitterState_new)) m_doublePrecision = 6"
proof -
  have r1: "sint (16 :: 32 word) = 16" by simp
  have r2: "sint (- 1 :: 32 word) = - 1" by simp
  have r3: "sint (6 :: 32 word) = 6" by simp
  show ?thesis
    using r1 r2 r3
      precision_setters_accept_exactly_range [of 16 FmtScope_Global EmitterState_new]
      precision_setters_accept_exactly_range [of "- 1" FmtScope_Global EmitterState_new]
      precision_setters_accept_exactly_range [of 6 FmtScope_Global EmitterState_new]
    by simp
qed

section \<open>Groups\<close>

text \<open>
  Claim C5. The group that \<open>BeginGroup\<close> opens takes the layout \<open>Flow\<close> whenever the
  innermost open group reads as \<open>Flow\<close>, whatever the configured defaults are. When the
  innermost group does not read as \<open>Flow\<close>, or no group is open, it takes the configured
  default of its kind: \<open>m_seqFmt\<close> for a sequence and \<open>m_mapFmt\<close> for any other kind.
\<close>

theorem BeginGroup_layout:
  "\<exists>g. m_groups (BeginGroup k s) = g # m_groups (BeginNode s) \<and> type g = k \<and>
       flow g = (if CurGroupFlowType s = FlowType_Flow then Flow
                 else if k = GroupType_Seq then manipSettings s m_seqFmt
                 else manipSettings s m_mapFmt) \<and>
       CurGroupFlowType (BeginGroup k s) =
         (if flow g = Flow then FlowType_Flow else FlowType_Block)"
  by (auto simp: BeginGroup_def BeginNode_def GetFlowType_def CurGroupFlowType_def Let_def
        split: list.splits)

theorem BeginGroup_layout_witness:
  "CurGroupFlowType EmitterState_new \<noteq> FlowType_Flow \<and>
   CurGroupFlowType (BeginGroup GroupType_Map EmitterState_new) = FlowType_Block \<and>
   CurGroupFlowType
     (BeginGroup GroupType_Seq (snd (SetFlowType GroupType_Seq Flow FmtScope_Global EmitterState_new)))
     = FlowType_Flow \<and>
   manipSettings
     (BeginGroup GroupType_Seq (snd (SetFlowType GroupType_Seq Flow FmtScope_Global EmitterState_new)))
     m_mapFmt = Block \<and>
   CurGroupFlowType
     (BeginGroup GroupType_Map
        (BeginGroup GroupType_Seq
           (snd (SetFlowType GroupType_Seq Flow FmtScope_Global EmitterState_new))))
     = FlowType_Flow"
proof -
  let ?s = "BeginGroup GroupType_Seq
              (snd (SetFlowType GroupType_Seq Flow FmtScope_Global EmitterState_new))"
  have top: "CurGroupFlowType EmitterState_new \<noteq> FlowType_Flow"
    by (simp add: CurGroupFlowType_def EmitterState_new_def)
  have dflt: "manipSettings EmitterState_new m_mapFmt = Block"
    by (simp add: EmitterState_new_def)
  have inflow: "CurGroupFlowType ?s = FlowType_Flow"
    by (simp add: SetFlowType_def run_defs)
  have dflt': "manipSettings ?s m_mapFmt = Block"
    by (simp add: SetFlowType_def run_defs)
  show ?thesis
    using top dflt inflow dflt'
      BeginGroup_layout [of GroupType_Map EmitterState_new]
      BeginGroup_layout [of GroupType_Map ?s]
    by auto
qed

text \<open>
  Claim C6. \<open>EndGroup\<close> ends in the failure state with the message \<open>UNMATCHED_GROUP_TAG\<close>
  when no group is open and when the innermost group is of another kind than the one
  asked for; the call returns, and the state stays failed through every later call. When
  the innermost group is of the kind asked for, a call that returns leaves the error
  state as it was.
\<close>

theorem EndGroup_unmatched_exactly:
  "((m_groups s = [] \<or> (\<exists>g gs. m_groups s = g # gs \<and> type g \<noteq> k)) \<longrightarrow>
      (\<exists>s'. EndGroup k s = Some s' \<and> \<not> good s' \<and> m_lastError s' = UNMATCHED_GROUP_TAG \<and>
            (\<forall>cs s''. run cs s' = Some s'' \<longrightarrow> \<not> good s''))) \<and>
   ((\<exists>g gs. m_groups s = g # gs \<and> type g = k) \<longrightarrow>
      (\<forall>s'. EndGroup k s = Some s' \<longrightarrow> good s' = good s \<and> m_lastError s' = m_lastError s))"
proof (intro conjI impI)
  assume "m_groups s = [] \<or> (\<exists>g gs. m_groups s = g # gs \<and> type g \<noteq> k)"
  then obtain s' where s': "EndGroup k s = Some s'" "\<not> good s'"
    "m_lastError s' = UNMATCHED_GROUP_TAG"
    by (auto simp: EndGroup_def SetError_def good_def destroy_Group_def Let_def)
  moreover have "\<forall>cs s''. run cs s' = Some s'' \<longrightarrow> \<not> good s''"
    using s'(2) run_keeps_failure by blast
  ultimately show "\<exists>s'. EndGroup k s = Some s' \<and> \<not> good s' \<and>
      m_lastError s' = UNMATCHED_GROUP_TAG \<and> (\<forall>cs s''. run cs s' = Some s'' \<longrightarrow> \<not> good s'')"
    by blast
next
  assume "\<exists>g gs. m_groups s = g # gs \<and> type g = k"
  then show "\<forall>s'. EndGroup k s = Some s' \<longrightarrow> good s' = good s \<and> m_lastError s' = m_lastError s"
    by (auto simp: EndGroup_def good_def destroy_Group_def Let_def split: if_splits)
qed

theorem EndGroup_unmatched_exactly_witness:
  "good EmitterState_new \<and> m_groups EmitterState_new = [] \<and>
   map_option good (EndGroup GroupType_Seq EmitterState_new) = Some False \<and>
   map_option good (EndGroup GroupType_Seq (BeginGroup GroupType_Map EmitterState_new))
     = Some False \<and>
   map_option m_lastError (EndGroup GroupType_Seq (BeginGroup GroupType_Map EmitterState_new))
     = Some UNMATCHED_GROUP_TAG \<and>
   map_option good (EndGroup GroupType_Map (BeginGroup GroupType_Map EmitterState_new))
     = Some True"
proof -
  let ?s = "BeginGroup GroupType_Map EmitterState_new"
  have ok: "good EmitterState_new" and empty: "m_groups EmitterState_new = []"
    by (simp_all add: good_def EmitterState_new_def)
  have ok': "good ?s"
    by (simp add: good_def EmitterState_new_def)
  obtain g where g: "m_groups ?s = g # m_groups (BeginNode EmitterState_new)"
    "type g = GroupType_Map"
    using BeginGroup_groups [of GroupType_Map EmitterState_new] by blast
  have differs: "\<exists>g gs. m_groups ?s = g # gs \<and> type g \<noteq> GroupType_Seq"
    using g by auto
  have matches: "\<exists>g gs. m_groups ?s = g # gs \<and> type g = GroupType_Map"
    using g by auto
  have returns: "EndGroup GroupType_Map ?s \<noteq> None"
    by (simp add: run_defs)
  show ?thesis
    using ok empty ok' differs matches returns
      EndGroup_unmatched_exactly [of EmitterState_new GroupType_Seq]
      EndGroup_unmatched_exactly [of ?s GroupType_Seq]
      EndGroup_unmatched_exactly [of ?s GroupType_Map]
    by auto
qed

section \<open>Indentation\<close>

lemma nested_BeginGroup:
  "ks \<noteq> [] \<Longrightarrow>
   \<exists>s'. run (map OpBeginGroup ks) s = Some s' \<and> GetIndent s' = GetIndent s \<and>
     map indent (m_groups s') = replicate (length ks) (GetIndent s) @ map indent (m_groups s) \<and>
     m_curIndent s' = m_curIndent s + CurGroupIndent s + of_nat (length ks - 1) * GetIndent s"
proof (induction ks arbitrary: s)
  case Nil
  then show ?case by simp
next
  case (Cons k ks)
  show ?case
  proof (cases "ks = []")
    case True
    then show ?thesis by simp
  next
    case False
    from Cons.IH [OF False, of "BeginGroup k s"]
    obtain s' where s': "run (map OpBeginGroup ks) (BeginGroup k s) = Some s'"
      "GetIndent s' = GetIndent s"
      "map indent (m_groups s') =
         replicate (length ks) (GetIndent s) @ GetIndent s # map indent (m_groups s)"
      "m_curIndent s' = m_curIndent s + CurGroupIndent s + GetIndent s
          + of_nat (length ks - 1) * GetIndent s"
      by auto
    have "of_nat (length ks) = (of_nat (length ks - 1) + 1 :: 32 word)"
      using False by (cases ks) simp_all
    then have "m_curIndent s' =
        m_curIndent s + CurGroupIndent s + of_nat (length ks) * GetIndent s"
      using s'(4) by (simp add: algebra_simps)
    then show ?thesis
      using s'(1,2,3) by (simp add: replicate_app_Cons_same)
  qed
qed

text \<open>
  Claim C3, as the code has it. The indent of a group is relative: it is the indent width
  configured when the group was opened. The cumulative indent of the enclosing groups is
  kept apart, in the accumulator \<open>m_curIndent\<close>. So after \<open>n\<close> nested \<open>BeginGroup\<close> calls
  from the top level, with the width \<open>w\<close> unchanged, every open group has indent \<open>w\<close>,
  \<open>CurGroupIndent\<close> reads \<open>w\<close> and the accumulator has grown by \<open>(n - 1) * w\<close>, in the
  arithmetic of \<open>unsigned\<close>.
\<close>

theorem nested_groups_relative_indent:
  assumes "ks \<noteq> []" and "m_groups s = []"
  shows "\<exists>s'. run (map OpBeginGroup ks) s = Some s' \<and>
     length (m_groups s') = length ks \<and>
     (\<forall>g \<in> set (m_groups s'). indent g = GetIndent s) \<and>
     CurGroupIndent s' = GetIndent s \<and>
     GetIndent s' = GetIndent s \<and>
     m_curIndent s' = m_curIndent s + of_nat (length ks - 1) * GetIndent s"
proof -
  obtain s' where s': "run (map OpBeginGroup ks) s = Some s'" "GetIndent s' = GetIndent s"
    "map indent (m_groups s') = replicate (length ks) (GetIndent s) @ map indent (m_groups s)"
    "m_curIndent s' = m_curIndent s + CurGroupIndent s + of_nat (length ks - 1) * GetIndent s"
    using nested_BeginGroup [OF assms(1), of s] by blast
  have indents: "map indent (m_groups s') = replicate (length ks) (GetIndent s)"
    using s'(3) assms(2) by simp
  then have len: "length (m_groups s') = length ks"
    by (metis length_map length_replicate)
  have all: "\<forall>g \<in> set (m_groups s'). indent g = GetIndent s"
  proof
    fix g assume "g \<in> set (m_groups s')"
    then have "indent g \<in> set (map indent (m_groups s'))" by simp
    then show "indent g = GetIndent s" unfolding indents by simp
  qed
  have top: "CurGroupIndent s' = GetIndent s"
  proof (cases "m_groups s'")
    case Nil
    then show ?thesis using len assms(1) by simp
  next
    case (Cons g gs)
    then show ?thesis using all by (simp add: CurGroupIndent_def)
  qed
  have "CurGroupIndent s = 0"
    using assms(2) by (simp add: CurGroupIndent_def)
  then show ?thesis
    using s'(1,2,4) len all top by simp
qed

theorem nested_groups_relative_indent_witness:
  "[GroupType_Seq, GroupType_Map, GroupType_Seq] \<noteq> [] \<and> m_groups EmitterState_new = [] \<and>
   GetIndent EmitterState_new = 2 \<and>
   map_option CurGroupIndent
     (run [OpBeginGroup GroupType_Seq, OpBeginGroup GroupType_Map, OpBeginGroup GroupType_Seq]
        EmitterState_new) = Some 2 \<and>
   map_option m_curIndent
     (run [OpBeginGroup GroupType_Seq, OpBeginGroup GroupType_Map, OpBeginGroup GroupType_Seq]
        EmitterState_new) = Some 4"
proof -
  have ne: "[GroupType_Seq, GroupType_Map, GroupType_Seq] \<noteq> []" by simp
  have empty: "m_groups EmitterState_new = []" by (simp add: EmitterState_new_def)
  have w: "GetIndent EmitterState_new = 2" and c0: "m_curIndent EmitterState_new = 0"
    by (simp_all add: GetIndent_def EmitterState_new_def)
  show ?thesis
    using empty w c0 nested_groups_relative_indent [OF ne empty]
    by auto
qed

theorem absolute_indent_counterexample:
  "GetIndent EmitterState_new = 2 \<and>
   map_option GetIndent
     (run [OpBeginGroup GroupType_Seq, OpBeginGroup GroupType_Seq] EmitterState_new) = Some 2 \<and>
   map_option CurGroupIndent
     (run [OpBeginGroup GroupType_Seq, OpBeginGroup GroupType_Seq] EmitterState_new) = Some 2 \<and>
   map_option CurGroupIndent
     (run [OpBeginGroup GroupType_Seq, OpBeginGroup GroupType_Seq] EmitterState_new)
     \<noteq> Some (2 * GetIndent EmitterState_new)"
  by (simp add: run_defs)

text \<open>
  Claim C4, as the code has it. From a new state, whose indent width is 2:
  after \<open>BeginGroup(Map)\<close> the layout is \<open>Block\<close> and the indent 2; after the local
  \<open>SetFlowType(Map, Flow)\<close> the default for mappings is \<open>Flow\<close>, while the layout of the
  mapping that is already open still reads \<open>Block\<close>; the sequence opened next has the
  layout \<open>Block\<close>, the default for sequences, and reports the indent 2, with 2 in the
  accumulator; after both \<open>EndGroup\<close> calls no group is open, no error is set and the
  default for mappings is \<open>Block\<close> again, which is the layout of the next mapping opened.
\<close>

theorem mapping_flow_scenario:
  "map_option CurGroupFlowType (run [OpBeginGroup GroupType_Map] EmitterState_new)
     = Some FlowType_Block \<and>
   map_option CurGroupIndent (run [OpBeginGroup GroupType_Map] EmitterState_new) = Some 2 \<and>
   map_option (current (ManipSetting m_mapFmt))
     (run [OpBeginGroup GroupType_Map, OpSet (Call_SetFlowType GroupType_Map Flow) FmtScope_Local]
        EmitterState_new) = Some (ManipValue Flow) \<and>
   map_option CurGroupFlowType
     (run [OpBeginGroup GroupType_Map, OpSet (Call_SetFlowType GroupType_Map Flow) FmtScope_Local]
        EmitterState_new) = Some FlowType_Block \<and>
   map_option CurGroupFlowType
     (run [OpBeginGroup GroupType_Map, OpSet (Call_SetFlowType GroupType_Map Flow) FmtScope_Local,
           OpBeginGroup GroupType_Seq] EmitterState_new) = Some FlowType_Block \<and>
   map_option CurGroupIndent
     (run [OpBeginGroup GroupType_Map, OpSet (Call_SetFlowType GroupType_Map Flow) FmtScope_Local,
           OpBeginGroup GroupType_Seq] EmitterState_new) = Some 2 \<and>
   map_option m_curIndent
     (run [OpBeginGroup GroupType_Map, OpSet (Call_SetFlowType GroupType_Map Flow) FmtScope_Local,
           OpBeginGroup GroupType_Seq] EmitterState_new) = Some 2 \<and>
   map_option CurGroupType
     (run [OpBeginGroup GroupType_Map, OpSet (Call_SetFlowType GroupType_Map Flow) FmtScope_Local,
           OpBeginGroup GroupType_Seq, OpEndGroup GroupType_Seq, OpEndGroup GroupType_Map]
        EmitterState_new) = Some GroupType_None \<and>
   map_option good
     (run [OpBeginGroup GroupType_Map, OpSet (Call_SetFlowType GroupType_Map Flow) FmtScope_Local,
           OpBeginGroup GroupType_Seq, OpEndGroup GroupType_Seq, OpEndGroup GroupType_Map]
        EmitterState_new) = Some True \<and>
   map_option (current (ManipSetting m_mapFmt))
     (run [OpBeginGroup GroupType_Map, OpSet (Call_SetFlowType GroupType_Map Flow) FmtScope_Local,
           OpBeginGroup GroupType_Seq, OpEndGroup GroupType_Seq, OpEndGroup GroupType_Map]
        EmitterState_new) = Some (ManipValue Block) \<and>
   map_option CurGroupFlowType
     (run [OpBeginGroup GroupType_Map, OpSet (Call_SetFlowType GroupType_Map Flow) FmtScope_Local,
           OpBeginGroup GroupType_Seq, OpEndGroup GroupType_Seq, OpEndGroup GroupType_Map,
           OpBeginGroup GroupType_Map] EmitterState_new) = Some FlowType_Block"
  by (simp add: SetFlowType_def run_defs)

theorem mapping_flow_scenario_counterexample:
  "map_option CurGroupFlowType
     (run [OpBeginGroup GroupType_Map, OpSet (Call_SetFlowType GroupType_Map Flow) FmtScope_Local]
        EmitterState_new) \<noteq> Some FlowType_Flow \<and>
   map_option CurGroupFlowType
     (run [OpBeginGroup GroupType_Map, OpSet (Call_SetFlowType GroupType_Map Flow) FmtScope_Local,
           OpBeginGroup GroupType_Seq] EmitterState_new) \<noteq> Some FlowType_Flow \<and>
   map_option CurGroupIndent
     (run [OpBeginGroup GroupType_Map, OpSet (Call_SetFlowType GroupType_Map Flow) FmtScope_Local,
           OpBeginGroup GroupType_Seq] EmitterState_new) \<noteq> Some 4"
  by (simp add: SetFlowType_def run_defs)

section \<open>Scopes\<close>




text \<open>
  Claim C2. With a group open, a legal global set takes effect at once. Whatever
  well-nested calls follow inside the group, local sets of the same concept among them,
  short of another global set of the concept and provided they return, the matching
  \<open>EndGroup\<close> of the group returns with the concept at the globally set value: whatever
  local changes of the concept the group holds. The fourth premise is the assertion of
  \<open>EndGroup\<close>.
\<close>

theorem global_set_survives_EndGroup:
  assumes "legal c" and "m_groups s \<noteq> []" and "CurGroupType s = t" and "indent_assertion s"
    and "balanced [] body"
    and "\<forall>op \<in> set body. \<not> sets_globally (concept c) op"
    and "run (OpSet c FmtScope_Global # body) s \<noteq> None"
  shows "map_option (current (concept c)) (run [OpSet c FmtScope_Global] s)
      = Some (requested c) \<and>
    map_option (current (concept c))
      (run (OpSet c FmtScope_Global # body @ [OpEndGroup t]) s)
      = Some (requested c)"
proof -
  let ?s1 = "snd (invoke c FmtScope_Global s)"
  obtain g0 gs0 where g0: "m_groups s = g0 # gs0" "type g0 = t"
    using assms(2,3) by (cases "m_groups s") (auto simp: CurGroupType_def)
  then have top: "shapes ?s1 = (t, indent g0, modifiedSettings g0) # map shape gs0"
    by (simp add: shapes_def shape_def)
  obtain ch where ch: "target ch = concept c" "saved ch = requested c"
    "m_globalModifiedSettings ?s1 = m_globalModifiedSettings s @ [ch]"
    using invoke_legal_Global_log [OF assms(1)] by blast
  have ia: "indent_assertion ?s1"
    using assms(4) by (simp add: indent_assertion_def split: list.splits)
  obtain s3 where s3: "run body ?s1 = Some s3"
    using assms(7) by (auto split: option.splits)
  obtain g gs where g: "m_groups s3 = g # gs" "type g = t" "indent_assertion s3"
    and glob: "reinstated (concept c) (m_globalModifiedSettings s3)
      = reinstated (concept c) (m_globalModifiedSettings ?s1)"
    using balanced_body_closes [OF assms(5,6) s3 top ia] by blast
  have set: "reinstated (concept c) (m_globalModifiedSettings s3) = Some (requested c)"
    using glob ch by (simp add: reinstated_append)
  obtain s4 where s4: "EndGroup t s3 = Some s4" "current (concept c) s4 = requested c"
    using EndGroup_matching [OF g(1,2,3)] set by auto
  moreover have "run (OpSet c FmtScope_Global # body @ [OpEndGroup t]) s = EndGroup t s3"
    using s3 by (simp add: run_append split: option.splits)
  ultimately show ?thesis
    using assms(1) by (simp add: invoke_legal_value)
qed

theorem global_set_survives_EndGroup_witness:
  "legal (Call_SetIndent 6) \<and>
   m_groups (BeginGroup GroupType_Seq (snd (SetIndent 4 FmtScope_Local EmitterState_new))) \<noteq> [] \<and>
   CurGroupType (BeginGroup GroupType_Seq (snd (SetIndent 4 FmtScope_Local EmitterState_new)))
     = GroupType_Seq \<and>
   indent_assertion (BeginGroup GroupType_Seq (snd (SetIndent 4 FmtScope_Local EmitterState_new))) \<and>
   balanced []
     [OpBeginScalar, OpSet (Call_SetIndent 8) FmtScope_Local, OpBeginGroup GroupType_Map,
      OpEndGroup GroupType_Map, OpSet (Call_SetIndent 3) FmtScope_Local] \<and>
   current (UnsignedSetting m_indent)
     (BeginGroup GroupType_Seq (snd (SetIndent 4 FmtScope_Local EmitterState_new)))
     = UnsignedValue 4 \<and>
   map_option (current (UnsignedSetting m_indent))
     (run [OpSet (Call_SetIndent 6) FmtScope_Global,
           OpBeginScalar, OpSet (Call_SetIndent 8) FmtScope_Local, OpBeginGroup GroupType_Map,
           OpEndGroup GroupType_Map, OpSet (Call_SetIndent 3) FmtScope_Local]
        (BeginGroup GroupType_Seq (snd (SetIndent 4 FmtScope_Local EmitterState_new))))
     = Some (UnsignedValue 3) \<and>
   map_option (current (UnsignedSetting m_indent))
     (run [OpSet (Call_SetIndent 6) FmtScope_Global,
           OpBeginScalar, OpSet (Call_SetIndent 8) FmtScope_Local, OpBeginGroup GroupType_Map,
           OpEndGroup GroupType_Map, OpSet (Call_SetIndent 3) FmtScope_Local,
           OpEndGroup GroupType_Seq]
        (BeginGroup GroupType_Seq (snd (SetIndent 4 FmtScope_Local EmitterState_new))))
     = Some (UnsignedValue 6)"
proof -
  let ?s = "BeginGroup GroupType_Seq (snd (SetIndent 4 FmtScope_Local EmitterState_new))"
  let ?body = "[OpBeginScalar, OpSet (Call_SetIndent 8) FmtScope_Local,
                OpBeginGroup GroupType_Map, OpEndGroup GroupType_Map,
                OpSet (Call_SetIndent 3) FmtScope_Local]"
  have h1: "legal (Call_SetIndent 6)" by simp
  have h2: "m_groups ?s \<noteq> []" by (simp add: BeginGroup_def Let_def)
  have h3: "CurGroupType ?s = GroupType_Seq" by simp
  have h4: "indent_assertion ?s"
    by (simp add: indent_assertion_def SetIndent_def run_defs)
  have h5: "balanced [] ?body" by simp
  have h6: "\<forall>op \<in> set ?body. \<not> sets_globally (concept (Call_SetIndent 6)) op" by simp
  have h7: "run (OpSet (Call_SetIndent 6) FmtScope_Global # ?body) ?s \<noteq> None"
    by (simp add: SetIndent_def run_defs)
  have under: "current (UnsignedSetting m_indent) ?s = UnsignedValue 4"
    by (simp add: SetIndent_def run_defs)
  have inside: "map_option (current (UnsignedSetting m_indent))
      (run (OpSet (Call_SetIndent 6) FmtScope_Global # ?body) ?s) = Some (UnsignedValue 3)"
    by (simp add: SetIndent_def run_defs)
  show ?thesis
    using h1 h2 h3 h4 h5 under inside
      global_set_survives_EndGroup [OF h1 h2 h3 h4 h5 h6 h7]
    by simp
qed

text \<open>
  Claim C10, as the code has it. When \<open>EndGroup\<close> is called for another kind than that of
  the innermost group, the call fails and is not atomic. The innermost group is popped,
  so \<open>CurGroupType\<close> reads the kind of the group below, and the popped group is
  destroyed, which gives every option the group held a local change of the value of that
  change. The accumulated indent is not decremented, and the globally set values are not
  reinstated: the log of global changes is neither applied nor altered.
\<close>

theorem EndGroup_mismatch_not_atomic:
  assumes "m_groups s = g # gs" and "type g \<noteq> k"
  shows "\<exists>s'. EndGroup k s = Some s' \<and> \<not> good s' \<and> m_lastError s' = UNMATCHED_GROUP_TAG \<and>
     m_groups s' = gs \<and>
     CurGroupType s' = (case gs of [] \<Rightarrow> GroupType_None | h # hs \<Rightarrow> type h) \<and>
     m_curIndent s' = m_curIndent s \<and>
     m_globalModifiedSettings s' = m_globalModifiedSettings s \<and>
     (\<forall>x. current x s' =
        (case reinstated x (modifiedSettings g) of Some v \<Rightarrow> v | None \<Rightarrow> current x s))"
  using assms
  by (auto simp: EndGroup_def SetError_def good_def destroy_Group_def CurGroupType_def
        restore_current Let_def split: option.splits)

theorem EndGroup_mismatch_not_atomic_witness:
  "m_groups
     (snd (SetIndent 6 FmtScope_Global
        (BeginGroup GroupType_Seq
           (snd (SetIndent 4 FmtScope_Local (BeginGroup GroupType_Map EmitterState_new))))))
     = \<lparr>type = GroupType_Seq, flow = Block, indent = 4, childCount = 0,
         modifiedSettings = [UnsignedChange m_indent 2]\<rparr>
       # [\<lparr>type = GroupType_Map, flow = Block, indent = 2, childCount = 1,
            modifiedSettings = []\<rparr>] \<and>
   map_option (current (UnsignedSetting m_indent))
     (run [OpBeginGroup GroupType_Map, OpSet (Call_SetIndent 4) FmtScope_Local,
           OpBeginGroup GroupType_Seq, OpSet (Call_SetIndent 6) FmtScope_Global]
        EmitterState_new) = Some (UnsignedValue 6) \<and>
   map_option m_curIndent
     (run [OpBeginGroup GroupType_Map, OpSet (Call_SetIndent 4) FmtScope_Local,
           OpBeginGroup GroupType_Seq, OpSet (Call_SetIndent 6) FmtScope_Global]
        EmitterState_new) = Some 2 \<and>
   map_option (current (UnsignedSetting m_indent))
     (run [OpBeginGroup GroupType_Map, OpSet (Call_SetIndent 4) FmtScope_Local,
           OpBeginGroup GroupType_Seq, OpSet (Call_SetIndent 6) FmtScope_Global,
           OpEndGroup GroupType_Map] EmitterState_new) = Some (UnsignedValue 2) \<and>
   map_option m_curIndent
     (run [OpBeginGroup GroupType_Map, OpSet (Call_SetIndent 4) FmtScope_Local,
           OpBeginGroup GroupType_Seq, OpSet (Call_SetIndent 6) FmtScope_Global,
           OpEndGroup GroupType_Map] EmitterState_new) = Some 2 \<and>
   map_option CurGroupType
     (run [OpBeginGroup GroupType_Map, OpSet (Call_SetIndent 4) FmtScope_Local,
           OpBeginGroup GroupType_Seq, OpSet (Call_SetIndent 6) FmtScope_Global,
           OpEndGroup GroupType_Map] EmitterState_new) = Some GroupType_Map \<and>
   map_option good
     (run [OpBeginGroup GroupType_Map, OpSet (Call_SetIndent 4) FmtScope_Local,
           OpBeginGroup GroupType_Seq, OpSet (Call_SetIndent 6) FmtScope_Global,
           OpEndGroup GroupType_Map] EmitterState_new) = Some False"
proof -
  let ?s = "snd (SetIndent 6 FmtScope_Global
              (BeginGroup GroupType_Seq
                 (snd (SetIndent 4 FmtScope_Local (BeginGroup GroupType_Map EmitterState_new)))))"
  let ?g = "\<lparr>type = GroupType_Seq, flow = Block, indent = 4, childCount = 0,
             modifiedSettings = [UnsignedChange m_indent 2]\<rparr>"
  let ?h = "\<lparr>type = GroupType_Map, flow = Block, indent = 2, childCount = 1,
             modifiedSettings = []\<rparr>"
  have h1: "m_groups ?s = ?g # [?h]"
    by (simp add: SetIndent_def run_defs)
  have h2: "type ?g \<noteq> GroupType_Map"
    by simp
  have acc: "m_curIndent ?s = 2"
    by (simp add: SetIndent_def run_defs)
  have now: "current (UnsignedSetting m_indent) ?s = UnsignedValue 6"
    by (simp add: SetIndent_def run_defs)
  obtain s' where e: "EndGroup GroupType_Map ?s = Some s'" "\<not> good s'"
    "CurGroupType s' = GroupType_Map" "m_curIndent s' = m_curIndent ?s"
    and readings: "\<forall>x. current x s' =
        (case reinstated x (modifiedSettings ?g) of Some v \<Rightarrow> v | None \<Rightarrow> current x ?s)"
    using EndGroup_mismatch_not_atomic [OF h1 h2] by auto
  have undone: "current (UnsignedSetting m_indent) s' = UnsignedValue 2"
    using readings [rule_format, of "UnsignedSetting m_indent"] by simp
  show ?thesis
    using h1 acc now e undone by simp
qed

theorem EndGroup_mismatch_restore_counterexample:
  "map_option (current (ManipSetting m_seqFmt))
     (run [OpSet (Call_SetFlowType GroupType_Seq Flow) FmtScope_Local, OpBeginGroup GroupType_Seq]
        EmitterState_new) = Some (ManipValue Flow) \<and>
   map_option (current (ManipSetting m_seqFmt))
     (run [OpSet (Call_SetFlowType GroupType_Seq Flow) FmtScope_Local, OpBeginGroup GroupType_Seq,
           OpEndGroup GroupType_Map] EmitterState_new) = Some (ManipValue Block) \<and>
   map_option good
     (run [OpSet (Call_SetFlowType GroupType_Seq Flow) FmtScope_Local, OpBeginGroup GroupType_Seq,
           OpEndGroup GroupType_Map] EmitterState_new) = Some False \<and>
   map_option CurGroupType
     (run [OpSet (Call_SetFlowType GroupType_Seq Flow) FmtScope_Local, OpBeginGroup GroupType_Seq,
           OpEndGroup GroupType_Map] EmitterState_new) = Some GroupType_None"
  by (simp add: SetFlowType_def run_defs)

end
